theory Spec2Isabelle
  imports Main
begin

section \<open>Data model\<close>

text \<open>
  The package is a POP3 client over a connection \<open>conn\<close> and a buffered reader \<open>bin\<close> on
  that connection. The embedding keeps the two fields of the Go struct \<open>Client\<close>:
  \<^item> \<open>bin\<close> is the sequence of lines that successive calls of \<open>bin.ReadLine()\<close> will deliver,
    each without its line end; once the sequence is used up \<open>ReadLine\<close> reports \<open>io.EOF\<close>;
  \<^item> \<open>conn\<close> is the sequence of writes made on the connection so far, one entry for each
    call of \<open>fmt.Fprintf(c.conn, ...)\<close>, oldest first.
\<close>

record Client =
  bin :: "string list"
  conn :: "string list"

text \<open>
  Go errors are values: \<open>io.EOF\<close> from the reader, \<open>errors.New(msg)\<close>, the
  \<open>*strconv.NumError\<close> of \<open>strconv.Atoi\<close> (which carries the text it could not parse) and
  the \<open>base64.CorruptInputError\<close> of the decoder.
  A Go function returns its values together with an error that may be \<open>nil\<close>, so the error
  component of a result is an \<open>error option\<close>. An index out of range is not an error value but
  a run-time panic: it is the outcome \<open>Panic\<close>.
\<close>

datatype error = EOF | ErrorString string | NumError string | CorruptInputError

datatype 'a outcome = Return 'a | Panic

text \<open>The operands of \<open>fmt.Fprintf\<close> that the package passes: strings and ints.\<close>

datatype arg = StringArg string | IntArg int

section \<open>Library functions the package calls\<close>

definition CRLF :: string where
  "CRLF = [CHR 0x0D, CHR 0x0A]"

text \<open>\<open>bufio.Reader.ReadLine\<close>: the next line, or \<open>io.EOF\<close>; never both.\<close>

definition ReadLine :: "Client \<Rightarrow> Client \<times> (error + string)" where
  "ReadLine c =
     (case bin c of
        [] \<Rightarrow> (c, Inl EOF)
      | l # ls \<Rightarrow> (c\<lparr>bin := ls\<rparr>, Inr l))"

text \<open>
  \<open>strings.SplitN(s, sep, n)\<close> for a one-byte separator and \<open>n \<ge> 0\<close>: at most \<open>n\<close> pieces,
  the last one being the unsplit rest; no piece at all for \<open>n = 0\<close>.
\<close>

fun SplitN :: "string \<Rightarrow> char \<Rightarrow> nat \<Rightarrow> string list" where
  "SplitN s sep 0 = []"
| "SplitN s sep (Suc 0) = [s]"
| "SplitN s sep (Suc (Suc n)) =
     (if sep \<in> set s
      then takeWhile (\<lambda>x. x \<noteq> sep) s # SplitN (tl (dropWhile (\<lambda>x. x \<noteq> sep) s)) sep (Suc n)
      else [s])"

text \<open>
  Decimal digits of a natural number and \<open>strconv\<close>'s decimal form of an int, as the verb
  \<open>%d\<close> prints it.
\<close>

fun digits :: "nat \<Rightarrow> string" where
  "digits n =
     (if n < 10 then [char_of (48 + n)]
      else digits (n div 10) @ [char_of (48 + n mod 10)])"

declare digits.simps [simp del]

definition Itoa :: "int \<Rightarrow> string" where
  "Itoa i = (if i < 0 then CHR ''-'' # digits (nat (- i)) else digits (nat i))"

text \<open>
  \<open>fmt.Sprintf\<close> on the fragment of formats the package uses: plain bytes, \<open>%%\<close>, and the
  verbs \<open>%s\<close>, \<open>%d\<close> and \<open>%v\<close> without flags, width or precision. A verb whose operand is
  missing prints \<open>%!v(MISSING)\<close>, a verb that does not fit its operand prints
  \<open>%!v(type=value)\<close>, a lone \<open>%\<close> at the end prints \<open>%!(NOVERB)\<close>, and operands left over are
  listed after the text as \<open>%!(EXTRA type=value, ...)\<close>. Flags, widths and the other verbs of
  package \<open>fmt\<close> are outside the fragment; every statement below that depends on the text
  written is about a format with no \<open>%\<close> or about a format of the package itself.
\<close>

fun typed_arg :: "arg \<Rightarrow> string" where
  "typed_arg (StringArg s) = ''string='' @ s"
| "typed_arg (IntArg i) = ''int='' @ Itoa i"

fun extra_args :: "arg list \<Rightarrow> string" where
  "extra_args [] = []"
| "extra_args [a] = typed_arg a"
| "extra_args (a # as) = typed_arg a @ '', '' @ extra_args as"

fun verb :: "char \<Rightarrow> arg \<Rightarrow> string" where
  "verb v (StringArg s) =
     (if v = CHR ''s'' \<or> v = CHR ''v'' then s
      else ''%!'' @ [v] @ ''('' @ typed_arg (StringArg s) @ '')'')"
| "verb v (IntArg i) =
     (if v = CHR ''d'' \<or> v = CHR ''v'' then Itoa i
      else ''%!'' @ [v] @ ''('' @ typed_arg (IntArg i) @ '')'')"

fun Sprintf :: "string \<Rightarrow> arg list \<Rightarrow> string" where
  "Sprintf [] [] = []"
| "Sprintf [] (a # as) = ''%!(EXTRA '' @ extra_args (a # as) @ '')''"
| "Sprintf (x # fs) as =
     (if x \<noteq> CHR ''%'' then x # Sprintf fs as
      else (case fs of
              [] \<Rightarrow> ''%!(NOVERB)'' @ Sprintf [] as
            | v # fs' \<Rightarrow>
                if v = CHR ''%'' then CHR ''%'' # Sprintf fs' as
                else (case as of
                        [] \<Rightarrow> ''%!'' @ [v] @ ''(MISSING)'' @ Sprintf fs' []
                      | a # as' \<Rightarrow> verb v a @ Sprintf fs' as')))"

section \<open>The protocol engine\<close>

text \<open>
  \<open>Cmd\<close> appends CRLF to a non-empty format, writes the formatted text on the connection
  (the result of the write is not looked at), and reads one line. A read error is returned
  as it is. Otherwise \<open>last\<close> is the text after the first space of the line, or the whole
  line when it has no space, and the first byte of the line decides between an error
  carrying \<open>last\<close> and the payload \<open>last\<close>. The line is indexed at 0 with no check of its
  length: on an empty line that is a panic.
\<close>

definition Cmd :: "Client \<Rightarrow> string \<Rightarrow> arg list \<Rightarrow> Client \<times> (string \<times> error option) outcome" where
  "Cmd c format args =
     (let format' = (if format \<noteq> [] then format @ CRLF else format);
          c1 = c\<lparr>conn := conn c @ [Sprintf format' args]\<rparr>
      in case ReadLine c1 of
           (c2, Inl err) \<Rightarrow> (c2, Return ([], Some err))
         | (c2, Inr l) \<Rightarrow>
             (let split = SplitN l (CHR '' '') 2;
                  last' = (if length split = 2 then split ! 1 else l)
              in if l = [] then (c2, Panic)
                 else if l ! 0 \<noteq> CHR ''+'' then (c2, Return ([], Some (ErrorString last')))
                 else (c2, Return (last', None))))"

section \<open>The multi-line reader\<close>

text \<open>
  \<open>ReadLines\<close> reads until a line equal to \<open>.\<close> or a read error. A line that is not empty
  and starts with a dot loses that one byte before it is appended. The lines collected so
  far are returned together with the error, if any.
\<close>

function ReadLines_loop :: "Client \<Rightarrow> string list \<Rightarrow> Client \<times> (string list \<times> error option)" where
  "ReadLines_loop c lines =
     (case ReadLine c of
        (c', Inl err) \<Rightarrow> (c', (lines, Some err))
      | (c', Inr line) \<Rightarrow>
          if line = ''.'' then (c', (lines, None))
          else ReadLines_loop c'
                 (lines @ [if length line > 0 \<and> line ! 0 = CHR ''.'' then drop 1 line else line]))"
  by pat_completeness auto
termination
  by (relation "measure (\<lambda>(c, lines). length (bin c))")
     (auto simp: ReadLine_def split: list.splits)

declare ReadLines_loop.simps [simp del]

definition ReadLines :: "Client \<Rightarrow> Client \<times> (string list \<times> error option)" where
  "ReadLines c = ReadLines_loop c []"

section \<open>Parsing the numeric replies\<close>

text \<open>
  \<open>strings.Fields\<close> on ASCII text (the wire format): the maximal runs of bytes that are not
  one of tab, line feed, vertical tab, form feed, carriage return and space. \<open>cur\<close> is the
  field being read.
\<close>

definition isSpace :: "char \<Rightarrow> bool" where
  "isSpace x = (x \<in> {CHR 0x09, CHR 0x0A, CHR 0x0B, CHR 0x0C, CHR 0x0D, CHR '' ''})"

fun Fields_from :: "string \<Rightarrow> string \<Rightarrow> string list" where
  "Fields_from cur [] = (if cur = [] then [] else [cur])"
| "Fields_from cur (x # xs) =
     (if isSpace x then (if cur = [] then Fields_from [] xs else cur # Fields_from [] xs)
      else Fields_from (cur @ [x]) xs)"

definition Fields :: "string \<Rightarrow> string list" where
  "Fields s = Fields_from [] s"

text \<open>
  \<open>strconv.Atoi\<close>: an optional sign, then one or more decimal digits and nothing else, the
  value within the range of \<open>int\<close> (64 bits here); anything else is a \<open>*NumError\<close>.
\<close>

definition isDigit :: "char \<Rightarrow> bool" where
  "isDigit x = (48 \<le> (of_char x :: nat) \<and> (of_char x :: nat) \<le> 57)"

definition digits_value :: "string \<Rightarrow> int" where
  "digits_value ds = foldl (\<lambda>n x. 10 * n + (of_char x - 48)) 0 ds"

definition Atoi :: "string \<Rightarrow> error + int" where
  "Atoi s =
     (let neg = (s \<noteq> [] \<and> s ! 0 = CHR ''-'');
          ds = (if s \<noteq> [] \<and> (s ! 0 = CHR ''-'' \<or> s ! 0 = CHR ''+'') then drop 1 s else s);
          v = (if neg then - digits_value ds else digits_value ds)
      in if ds = [] \<or> \<not> list_all isDigit ds then Inl (NumError s)
         else if v < - (2 ^ 63) \<or> 2 ^ 63 - 1 < v then Inl (NumError s)
         else Inr v)"

section \<open>The maildrop operations\<close>

text \<open>
  \<open>Stat\<close> and \<open>List\<close> index the fields of the payload without looking at their number; an
  index that is not there is a panic. A field that is there and is not a number gives the
  error \<open>Invalid server response\<close> with zero values.
\<close>

definition Stat :: "Client \<Rightarrow> Client \<times> (int \<times> int \<times> error option) outcome" where
  "Stat c =
     (case Cmd c ''STAT'' [] of
        (c1, Panic) \<Rightarrow> (c1, Panic)
      | (c1, Return (l, Some err)) \<Rightarrow> (c1, Return (0, 0, Some err))
      | (c1, Return (l, None)) \<Rightarrow>
          (let parts = Fields l
           in if length parts \<le> 0 then (c1, Panic)
              else case Atoi (parts ! 0) of
                     Inl err \<Rightarrow> (c1, Return (0, 0, Some (ErrorString ''Invalid server response'')))
                   | Inr count' \<Rightarrow>
                       if length parts \<le> 1 then (c1, Panic)
                       else case Atoi (parts ! 1) of
                              Inl err \<Rightarrow>
                                (c1, Return (0, 0, Some (ErrorString ''Invalid server response'')))
                            | Inr size' \<Rightarrow> (c1, Return (count', size', None))))"

definition List :: "Client \<Rightarrow> int \<Rightarrow> Client \<times> (int \<times> error option) outcome" where
  "List c msg =
     (case Cmd c ''LIST %d'' [IntArg msg] of
        (c1, Panic) \<Rightarrow> (c1, Panic)
      | (c1, Return (l, Some err)) \<Rightarrow> (c1, Return (0, Some err))
      | (c1, Return (l, None)) \<Rightarrow>
          (let fs = Fields l
           in if length fs \<le> 1 then (c1, Panic)
              else case Atoi (fs ! 1) of
                     Inl err \<Rightarrow> (c1, Return (0, Some (ErrorString ''Invalid server response'')))
                   | Inr size' \<Rightarrow> (c1, Return (size', None))))"

text \<open>
  \<open>ListAll\<close> allocates both result slices at the number of lines, filled with zeros, and
  fills them line by line. The loop returns at the first field that is not a number, with
  the error of \<open>Atoi\<close> and the slices as they are at that moment.
\<close>

fun ListAll_loop ::
  "nat \<Rightarrow> string list \<Rightarrow> int list \<Rightarrow> int list \<Rightarrow> (int list \<times> int list \<times> error option) outcome" where
  "ListAll_loop i [] msgs sizes = Return (msgs, sizes, None)"
| "ListAll_loop i (l # ls) msgs sizes =
     (let fs = Fields l
      in if length fs \<le> 0 then Panic
         else case Atoi (fs ! 0) of
                Inl err \<Rightarrow> Return (msgs, sizes, Some err)
              | Inr m \<Rightarrow>
                  if length fs \<le> 1 then Panic
                  else case Atoi (fs ! 1) of
                         Inl err \<Rightarrow> Return (msgs, sizes, Some err)
                       | Inr s \<Rightarrow> ListAll_loop (Suc i) ls (msgs[i := m]) (sizes[i := s]))"

definition ListAll :: "Client \<Rightarrow> Client \<times> (int list \<times> int list \<times> error option) outcome" where
  "ListAll c =
     (case Cmd c ''LIST'' [] of
        (c1, Panic) \<Rightarrow> (c1, Panic)
      | (c1, Return (l, Some err)) \<Rightarrow> (c1, Return ([], [], Some err))
      | (c1, Return (l, None)) \<Rightarrow>
          (case ReadLines c1 of
             (c2, (lines, Some err)) \<Rightarrow> (c2, Return ([], [], Some err))
           | (c2, (lines, None)) \<Rightarrow>
               (c2, ListAll_loop 0 lines
                      (replicate (length lines) 0) (replicate (length lines) 0))))"

section \<open>Capabilities and authentication\<close>

text \<open>
  \<open>base64.StdEncoding\<close>: three bytes become four letters of the alphabet, and a last group
  of one or two bytes is padded with \<open>=\<close>. Decoding skips carriage returns and line feeds,
  wants whole groups of four, padding only in the last one, and reports anything else as a
  \<open>CorruptInputError\<close>; the unused low bits of a padded group are not checked.
\<close>

definition encodeStd :: string where
  "encodeStd = ''ABCDEFGHIJKLMNOPQRSTUVWXYZabcdefghijklmnopqrstuvwxyz0123456789+/''"

definition enc :: "nat \<Rightarrow> char" where
  "enc n = encodeStd ! n"

fun EncodeToString :: "string \<Rightarrow> string" where
  "EncodeToString [] = []"
| "EncodeToString [a] =
     [enc (of_char a div 4), enc (of_char a mod 4 * 16), CHR ''='', CHR ''='']"
| "EncodeToString [a, b] =
     [enc (of_char a div 4), enc (of_char a mod 4 * 16 + of_char b div 16),
      enc (of_char b mod 16 * 4), CHR ''='']"
| "EncodeToString (a # b # c # rest) =
     [enc (of_char a div 4), enc (of_char a mod 4 * 16 + of_char b div 16),
      enc (of_char b mod 16 * 4 + of_char c div 64), enc (of_char c mod 64)]
     @ EncodeToString rest"

definition dec :: "char \<Rightarrow> nat" where
  "dec x = length (takeWhile (\<lambda>y. y \<noteq> x) encodeStd)"

definition inStd :: "char \<Rightarrow> bool" where
  "inStd x = (x \<in> set encodeStd)"

fun decode_quanta :: "string \<Rightarrow> string option" where
  "decode_quanta [] = Some []"
| "decode_quanta (a # b # c # d # rest) =
     (if inStd a \<and> inStd b \<and> inStd c \<and> inStd d
      then (case decode_quanta rest of
              None \<Rightarrow> None
            | Some out \<Rightarrow>
                Some ([char_of (dec a * 4 + dec b div 16),
                       char_of (dec b mod 16 * 16 + dec c div 4),
                       char_of (dec c mod 4 * 64 + dec d)] @ out))
      else if inStd a \<and> inStd b \<and> inStd c \<and> d = CHR ''='' \<and> rest = []
      then Some [char_of (dec a * 4 + dec b div 16), char_of (dec b mod 16 * 16 + dec c div 4)]
      else if inStd a \<and> inStd b \<and> c = CHR ''='' \<and> d = CHR ''='' \<and> rest = []
      then Some [char_of (dec a * 4 + dec b div 16)]
      else None)"
| "decode_quanta _ = None"

definition DecodeString :: "string \<Rightarrow> error + string" where
  "DecodeString s =
     (case decode_quanta (filter (\<lambda>x. x \<noteq> CHR 0x0D \<and> x \<noteq> CHR 0x0A) s) of
        None \<Rightarrow> Inl CorruptInputError
      | Some out \<Rightarrow> Inr out)"

text \<open>
  \<open>strings.Split(s, sep)\<close> is \<open>SplitN\<close> with one piece more than there are separators, and
  \<open>strings.HasPrefix\<close> compares the first bytes.
\<close>

definition Split :: "string \<Rightarrow> char \<Rightarrow> string list" where
  "Split s sep = SplitN s sep (count_list s sep + 1)"

definition HasPrefix :: "string \<Rightarrow> string \<Rightarrow> bool" where
  "HasPrefix s p = (length s \<ge> length p \<and> take (length p) s = p)"

text \<open>\<open>Caps\<close> sends CAPA, drops the result and error of that command, and reads the block.\<close>

definition Caps :: "Client \<Rightarrow> Client \<times> (string list \<times> error option) outcome" where
  "Caps c =
     (case Cmd c ''CAPA'' [] of
        (c1, Panic) \<Rightarrow> (c1, Panic)
      | (c1, Return r) \<Rightarrow> (case ReadLines c1 of (c2, res) \<Rightarrow> (c2, Return res)))"

text \<open>
  The first loop of \<open>Auth\<close>: every capability starting with \<open>SASL\<close> replaces the mechanism
  list by its pieces after the first; a capability equal to \<open>PLAIN\<close> sets the flag. \<open>None\<close>
  is the nil slice.
\<close>

fun Auth_caps :: "string list \<Rightarrow> string list option \<Rightarrow> bool \<Rightarrow> string list option \<times> bool" where
  "Auth_caps [] sasl plain = (sasl, plain)"
| "Auth_caps (x # caps) sasl plain =
     (if HasPrefix x ''SASL'' then Auth_caps caps (Some (drop 1 (Split x (CHR '' '')))) plain
      else if x = ''PLAIN'' then Auth_caps caps sasl True
      else Auth_caps caps sasl plain)"

text \<open>
  The second loop: the position of the first mechanism equal to \<open>CRAM-MD5\<close>, where the loop
  body returns from \<open>Auth\<close>.
\<close>

fun Auth_sasl :: "string list \<Rightarrow> bool" where
  "Auth_sasl [] = False"
| "Auth_sasl (v # vs) = (if v = ''CRAM-MD5'' then True else Auth_sasl vs)"

text \<open>
  The body of that loop. \<open>smtp.CRAMMD5Auth(username, password).Next(chal, true)\<close> answers
  the user name, a space and the hexadecimal HMAC-MD5 of the challenge keyed with the
  password, and has no error. The digest is not code of this package: \<open>hmac_md5\<close> stands
  for it, taking the key and the message.
\<close>

definition Auth_cram ::
  "(string \<Rightarrow> string \<Rightarrow> string) \<Rightarrow> Client \<Rightarrow> string \<Rightarrow> string \<Rightarrow> Client \<times> error option outcome" where
  "Auth_cram hmac_md5 c username password =
     (case Cmd c ''AUTH CRAM-MD5'' [] of
        (c1, Panic) \<Rightarrow> (c1, Panic)
      | (c1, Return (line, Some err)) \<Rightarrow> (c1, Return (Some err))
      | (c1, Return (line, None)) \<Rightarrow>
          (case DecodeString line of
             Inl err \<Rightarrow> (c1, Return (Some err))
           | Inr chal \<Rightarrow>
               (let auth = username @ '' '' @ hmac_md5 password chal;
                    response = EncodeToString auth
                in case Cmd c1 response [] of
                     (c2, Panic) \<Rightarrow> (c2, Panic)
                   | (c2, Return (l, err)) \<Rightarrow> (c2, Return err))))"

text \<open>The branch taken when the flag is set: one command, whose error is the result.\<close>

definition Auth_plain :: "Client \<Rightarrow> string \<Rightarrow> string \<Rightarrow> Client \<times> error option outcome" where
  "Auth_plain c username password =
     (case Cmd c ''AUTH %s %s'' [StringArg username, StringArg (EncodeToString password)] of
        (c1, Panic) \<Rightarrow> (c1, Panic)
      | (c1, Return (l, err)) \<Rightarrow> (c1, Return err))"

definition Auth ::
  "(string \<Rightarrow> string \<Rightarrow> string) \<Rightarrow> Client \<Rightarrow> string \<Rightarrow> string \<Rightarrow> Client \<times> error option outcome" where
  "Auth hmac_md5 c username password =
     (case Caps c of
        (c1, Panic) \<Rightarrow> (c1, Panic)
      | (c1, Return (caps, err)) \<Rightarrow>
          (case Auth_caps caps None False of
             (sasl, plain) \<Rightarrow>
               if (case sasl of None \<Rightarrow> False | Some ms \<Rightarrow> Auth_sasl ms)
               then Auth_cram hmac_md5 c1 username password
               else if plain then Auth_plain c1 username password
               else (c1, Return (Some (ErrorString ''No supported auth methods found.'')))))"

section \<open>The specification's words\<close>

text \<open>
  The remainder of a status line: the text after its first space, or the whole line when it
  has no space.
\<close>

fun after_first_space :: "string \<Rightarrow> string option" where
  "after_first_space [] = None"
| "after_first_space (x # xs) = (if x = CHR '' '' then Some xs else after_first_space xs)"

definition spec_remainder :: "string \<Rightarrow> string" where
  "spec_remainder l = (case after_first_space l of None \<Rightarrow> l | Some r \<Rightarrow> r)"

text \<open>
  The mechanism list of a capability list: the words after the tag of the entry starting
  with \<open>SASL\<close> (of the last one, if there are several); no mechanism without such an entry.
\<close>

definition spec_mechanisms :: "string list \<Rightarrow> string list" where
  "spec_mechanisms caps =
     (case rev (filter (\<lambda>x. HasPrefix x ''SASL'') caps) of
        [] \<Rightarrow> []
      | x # _ \<Rightarrow> tl (Split x (CHR '' '')))"

text \<open>A digest function for the examples; the statements hold for every one.\<close>

definition example_digest :: "string \<Rightarrow> string \<Rightarrow> string" where
  "example_digest key msg = replicate 32 (CHR ''0'')"

section \<open>Facts about the library functions\<close>

lemma SplitN_2:
  "SplitN l sep 2 =
     (if sep \<in> set l then [takeWhile (\<lambda>x. x \<noteq> sep) l, tl (dropWhile (\<lambda>x. x \<noteq> sep) l)] else [l])"
  by (simp add: numeral_2_eq_2)

lemma after_first_space_None: "after_first_space l = None \<longleftrightarrow> CHR '' '' \<notin> set l"
  by (induction l) auto

lemma after_first_space_Some:
  "CHR '' '' \<in> set l \<Longrightarrow> after_first_space l = Some (tl (dropWhile (\<lambda>x. x \<noteq> CHR '' '') l))"
  by (induction l) auto

lemma after_first_space_append:
  "CHR '' '' \<notin> set tok \<Longrightarrow> after_first_space (tok @ CHR '' '' # r) = Some r"
  by (induction tok) auto

lemma last_is_spec_remainder:
  "(let split = SplitN l (CHR '' '') 2 in if length split = 2 then split ! 1 else l) = spec_remainder l"
proof (cases "CHR '' '' \<in> set l")
  case True
  then show ?thesis
    by (simp add: SplitN_2 spec_remainder_def after_first_space_Some)
next
  case False
  then have "after_first_space l = None" by (simp add: after_first_space_None)
  with False show ?thesis by (simp add: SplitN_2 spec_remainder_def)
qed

lemma Sprintf_plain: "CHR ''%'' \<notin> set format \<Longrightarrow> Sprintf format [] = format"
  by (induction format) auto

section \<open>One command, one status line\<close>

lemma Cmd_Cons:
  assumes "bin c = l # ls"
  shows "Cmd c format args =
           (c\<lparr>conn := conn c @ [Sprintf (if format \<noteq> [] then format @ CRLF else format) args],
              bin := ls\<rparr>,
            if l = [] then Panic
            else if l ! 0 \<noteq> CHR ''+'' then Return ([], Some (ErrorString (spec_remainder l)))
            else Return (spec_remainder l, None))"
  using assms last_is_spec_remainder [of l]
  by (simp add: Cmd_def ReadLine_def Let_def)

lemma Cmd_Nil:
  assumes "bin c = []"
  shows "Cmd c format args =
           (c\<lparr>conn := conn c @ [Sprintf (if format \<noteq> [] then format @ CRLF else format) args]\<rparr>,
            Return ([], Some EOF))"
  using assms by (simp add: Cmd_def ReadLine_def Let_def)

lemma Cmd_conn:
  "conn (fst (Cmd c format args)) =
     conn c @ [Sprintf (if format \<noteq> [] then format @ CRLF else format) args]"
  by (cases "bin c") (simp_all add: Cmd_Nil Cmd_Cons)

section \<open>The multi-line block\<close>

lemma ReadLines_loop_block:
  assumes "\<forall>l \<in> set ls. l \<noteq> ''.''" and "bin c = ls @ ''.'' # rest"
  shows "ReadLines_loop c acc =
           (c\<lparr>bin := rest\<rparr>,
            (acc @ map (\<lambda>l. if HasPrefix l ''.'' then drop 1 l else l) ls, None))"
  using assms
proof (induction ls arbitrary: c acc)
  case Nil
  then show ?case
    by (subst ReadLines_loop.simps) (simp add: ReadLine_def)
next
  case (Cons l ls)
  have step: "ReadLine c = (c\<lparr>bin := ls @ ''.'' # rest\<rparr>, Inr l)"
    using Cons.prems(2) by (simp add: ReadLine_def)
  have neq: "l \<noteq> ''.''" using Cons.prems(1) by simp
  have pre: "(l \<noteq> [] \<and> l ! 0 = CHR ''.'') = HasPrefix l ''.''"
    by (cases l) (auto simp: HasPrefix_def)
  have IH: "ReadLines_loop (c\<lparr>bin := ls @ ''.'' # rest\<rparr>) acc' =
              (c\<lparr>bin := rest\<rparr>,
               (acc' @ map (\<lambda>l. if HasPrefix l ''.'' then drop 1 l else l) ls, None))" for acc'
    using Cons.IH [of "c\<lparr>bin := ls @ ''.'' # rest\<rparr>" acc'] Cons.prems(1) by simp
  show ?case
    by (subst ReadLines_loop.simps) (simp add: step neq pre IH del: One_nat_def)
qed

lemma plain_lines_unchanged:
  assumes "\<forall>l \<in> set ls. \<not> HasPrefix l ''.''"
  shows "map (\<lambda>l. if HasPrefix l ''.'' then drop 1 l else l) ls = ls"
  using assms by (induction ls) auto

lemma ReadLines_block:
  assumes "\<forall>l \<in> set ls. l \<noteq> ''.''" and "bin c = ls @ ''.'' # rest"
  shows "ReadLines c =
           (c\<lparr>bin := rest\<rparr>,
            (map (\<lambda>l. if HasPrefix l ''.'' then drop 1 l else l) ls, None))"
  unfolding ReadLines_def
  using ReadLines_loop_block [OF assms, of "[]"] by simp

text \<open>
  Claim C3. For every finite sequence of incoming lines in which no line equals \<open>.\<close> and no
  line starts with \<open>.\<close>, \<open>ReadLines\<close> on that sequence followed by the terminator line
  \<open>.\<close> returns exactly that sequence, in the same order and with no error; the terminator
  is consumed and is not part of the output, and what follows it is left unread.
\<close>

theorem ReadLines_returns_plain_block:
  assumes "\<forall>l \<in> set ls. l \<noteq> ''.'' \<and> \<not> HasPrefix l ''.''"
    and "bin c = ls @ ''.'' # rest"
  shows "ReadLines c = (c\<lparr>bin := rest\<rparr>, (ls, None))"
proof -
  have a: "\<forall>l \<in> set ls. l \<noteq> ''.''" and b: "\<forall>l \<in> set ls. \<not> HasPrefix l ''.''"
    using assms(1) by auto
  show ?thesis
    unfolding ReadLines_def
    using ReadLines_loop_block [OF a assms(2), of "[]"] plain_lines_unchanged [OF b]
    by simp
qed

theorem ReadLines_returns_plain_block_witness:
  "ReadLines \<lparr>bin = [''+OK'', ''1 100'', '''', ''.'', ''next''], conn = []\<rparr> =
     (\<lparr>bin = [''next''], conn = []\<rparr>, ([''+OK'', ''1 100'', ''''], None))"
  using ReadLines_returns_plain_block
    [of "[''+OK'', ''1 100'', '''']"
        "\<lparr>bin = [''+OK'', ''1 100'', '''', ''.'', ''next''], conn = []\<rparr>" "[''next'']"]
  by (simp add: HasPrefix_def)

text \<open>
  Claim C4. Every incoming line of a block that begins with \<open>.\<close> and is not exactly \<open>.\<close>
  is put in the output without its first byte, whatever follows that dot (so \<open>.hello\<close>
  comes out as \<open>hello\<close> and \<open>..\<close> as \<open>.\<close>); every other line is put in the output as
  it is; the line exactly equal to \<open>.\<close> ends the block and is not in the output.
\<close>

theorem ReadLines_strips_one_dot:
  assumes "\<forall>l \<in> set ls. l \<noteq> ''.''" and "bin c = ls @ ''.'' # rest"
  shows "ReadLines c =
           (c\<lparr>bin := rest\<rparr>,
            (map (\<lambda>l. if HasPrefix l ''.'' then drop 1 l else l) ls, None))"
  unfolding ReadLines_def
  using ReadLines_loop_block [OF assms, of "[]"] by simp

theorem ReadLines_strips_one_dot_witness:
  "ReadLines \<lparr>bin = [''.hello'', ''..'', ''...a'', ''b.'', ''.'', ''.x''], conn = []\<rparr> =
     (\<lparr>bin = [''.x''], conn = []\<rparr>, ([''hello'', ''.'', ''..a'', ''b.''], None))"
  using ReadLines_strips_one_dot
    [of "[''.hello'', ''..'', ''...a'', ''b.'']"
        "\<lparr>bin = [''.hello'', ''..'', ''...a'', ''b.'', ''.'', ''.x''], conn = []\<rparr>" "[''.x'']"]
  by (simp add: HasPrefix_def)

lemma Cmd_empty_status_line: "bin c = [] # ls \<Longrightarrow> snd (Cmd c format args) = Panic"
  by (simp add: Cmd_Cons)

text \<open>
  Claim C1. The claim asks that an empty status line be rejected with an error before its
  first byte is looked at. \<open>Cmd\<close> indexes the line at 0 without a check of its length
  (\<open>ReadLines\<close>, next to it, tests \<open>len(line) > 0\<close> before the same index), so on an empty
  status line the command does not return an error: it panics.
\<close>

theorem Cmd_empty_line_panics:
  "Cmd \<lparr>bin = [''''], conn = []\<rparr> ''NOOP'' [] = (\<lparr>bin = [], conn = [''NOOP'' @ CRLF]\<rparr>, Panic)"
  by (simp add: Cmd_Cons CRLF_def)

lemma spec_remainder_split:
  "CHR '' '' \<notin> set tok \<Longrightarrow> spec_remainder (tok @ CHR '' '' # r) = r"
  by (simp add: spec_remainder_def after_first_space_append)

lemma spec_remainder_whole: "CHR '' '' \<notin> set l \<Longrightarrow> spec_remainder l = l"
  using after_first_space_None [of l] by (simp add: spec_remainder_def)

text \<open>
  Claim C2. For every status line that is not empty: when its first byte is \<open>+\<close>, \<open>Cmd\<close>
  returns as payload the remainder of the line, that is the text after its first space, or
  the whole line when it has no space, and no error; otherwise \<open>Cmd\<close> returns an error whose
  message is that same remainder.
\<close>

theorem Cmd_classifies_status_line:
  assumes "bin c = l # ls" and "l \<noteq> []"
  shows "snd (Cmd c format args) =
           (if l ! 0 = CHR ''+'' then Return (spec_remainder l, None)
            else Return ([], Some (ErrorString (spec_remainder l))))"
  using assms by (simp add: Cmd_Cons)

theorem Cmd_classifies_status_line_witness:
  "snd (Cmd \<lparr>bin = [''+OK 2 320''], conn = []\<rparr> ''STAT'' []) = Return (''2 320'', None) \<and>
   snd (Cmd \<lparr>bin = [''+OK''], conn = []\<rparr> ''NOOP'' []) = Return (''+OK'', None) \<and>
   snd (Cmd \<lparr>bin = [''-ERR no such message''], conn = []\<rparr> ''DELE %d'' [IntArg 7]) =
     Return ('''', Some (ErrorString ''no such message'')) \<and>
   snd (Cmd \<lparr>bin = [''-ERR''], conn = []\<rparr> ''RSET'' []) = Return ('''', Some (ErrorString ''-ERR''))"
  using Cmd_classifies_status_line [of "\<lparr>bin = [''+OK 2 320''], conn = []\<rparr>" "''+OK 2 320''" "[]" "''STAT''" "[]"]
    Cmd_classifies_status_line [of "\<lparr>bin = [''+OK''], conn = []\<rparr>" "''+OK''" "[]" "''NOOP''" "[]"]
    Cmd_classifies_status_line [of "\<lparr>bin = [''-ERR no such message''], conn = []\<rparr>"
      "''-ERR no such message''" "[]" "''DELE %d''" "[IntArg 7]"]
    Cmd_classifies_status_line [of "\<lparr>bin = [''-ERR''], conn = []\<rparr>" "''-ERR''" "[]" "''RSET''" "[]"]
  by (simp add: spec_remainder_def)

text \<open>
  Claim C9, as stated, fails for the empty command text: CRLF is appended to a format only
  when the format is not empty, so the handshake probe writes no byte at all, and in
  particular not a bare CRLF.
\<close>

theorem Cmd_empty_format_writes_no_CRLF:
  "conn (fst (Cmd \<lparr>bin = [''+OK POP3 server ready''], conn = []\<rparr> '''' [])) = ['''']
   \<and> concat (conn (fst (Cmd \<lparr>bin = [''+OK POP3 server ready''], conn = []\<rparr> '''' []))) \<noteq> CRLF"
  by (simp add: Cmd_conn CRLF_def)

text \<open>
  Claim C9, amended. For the empty command text \<open>Cmd\<close> makes a write of no bytes (no CRLF)
  before it reads the line; for every command text that is not empty (a text without
  formatting directives and without operands) \<open>Cmd\<close> writes that text followed by CRLF.
\<close>

theorem Cmd_writes:
  "conn (fst (Cmd c '''' [])) = conn c @ ['''']
   \<and> (format \<noteq> [] \<and> CHR ''%'' \<notin> set format
        \<longrightarrow> conn (fst (Cmd c format [])) = conn c @ [format @ CRLF])"
  by (simp add: Cmd_conn Sprintf_plain CRLF_def)

theorem Cmd_writes_witness:
  "conn (fst (Cmd \<lparr>bin = [''+OK POP3 server ready''], conn = []\<rparr> '''' [])) = ['''']
   \<and> conn (fst (Cmd \<lparr>bin = [''+OK 2 320''], conn = ['''']\<rparr> ''STAT'' [])) = ['''', ''STAT'' @ CRLF]"
  using Cmd_writes [of "\<lparr>bin = [''+OK POP3 server ready''], conn = []\<rparr>" "''STAT''"]
    Cmd_writes [of "\<lparr>bin = [''+OK 2 320''], conn = ['''']\<rparr>" "''STAT''"]
  by simp

section \<open>Numeric replies\<close>

text \<open>
  Claim C8. For every payload of a successful STAT: when its first two fields are integers,
  \<open>Stat\<close> returns them as count and size with no error (\<open>5 2048\<close> gives 5 and 2048); when
  its first field is not an integer, or its first field is one and its second field is not
  (\<open>abc 10\<close>), \<open>Stat\<close> returns the error \<open>Invalid server response\<close> with count and size 0.
\<close>

theorem Stat_parses_payload:
  assumes "Cmd c ''STAT'' [] = (c1, Return (l, None))"
  shows "(\<forall>a b rest n m. Fields l = a # b # rest \<and> Atoi a = Inr n \<and> Atoi b = Inr m
            \<longrightarrow> Stat c = (c1, Return (n, m, None)))
       \<and> (\<forall>a rest e. Fields l = a # rest \<and> Atoi a = Inl e
            \<longrightarrow> Stat c = (c1, Return (0, 0, Some (ErrorString ''Invalid server response''))))
       \<and> (\<forall>a b rest n e. Fields l = a # b # rest \<and> Atoi a = Inr n \<and> Atoi b = Inl e
            \<longrightarrow> Stat c = (c1, Return (0, 0, Some (ErrorString ''Invalid server response''))))"
  using assms by (simp add: Stat_def)

lemma Fields_5_2048: "Fields ''5 2048'' = [''5'', ''2048'']"
  by (simp add: Fields_def isSpace_def)

lemma Fields_abc_10: "Fields ''abc 10'' = [''abc'', ''10'']"
  by (simp add: Fields_def isSpace_def)

lemma Atoi_5: "Atoi ''5'' = Inr 5"
  by (simp add: Atoi_def isDigit_def digits_value_def)

lemma Atoi_2048: "Atoi ''2048'' = Inr 2048"
  by (simp add: Atoi_def isDigit_def digits_value_def)

lemma Atoi_abc: "Atoi ''abc'' = Inl (NumError ''abc'')"
  by (simp add: Atoi_def isDigit_def digits_value_def)

theorem Stat_parses_payload_witness:
  "Stat \<lparr>bin = [''+OK 5 2048''], conn = []\<rparr> =
     (\<lparr>bin = [], conn = [''STAT'' @ CRLF]\<rparr>, Return (5, 2048, None))
   \<and> Stat \<lparr>bin = [''+OK abc 10''], conn = []\<rparr> =
     (\<lparr>bin = [], conn = [''STAT'' @ CRLF]\<rparr>,
      Return (0, 0, Some (ErrorString ''Invalid server response'')))"
proof -
  have a: "Cmd \<lparr>bin = [''+OK 5 2048''], conn = []\<rparr> ''STAT'' [] =
             (\<lparr>bin = [], conn = [''STAT'' @ CRLF]\<rparr>, Return (''5 2048'', None))"
    by (simp add: Cmd_Cons spec_remainder_def CRLF_def)
  have b: "Cmd \<lparr>bin = [''+OK abc 10''], conn = []\<rparr> ''STAT'' [] =
             (\<lparr>bin = [], conn = [''STAT'' @ CRLF]\<rparr>, Return (''abc 10'', None))"
    by (simp add: Cmd_Cons spec_remainder_def CRLF_def)
  show ?thesis
    using Stat_parses_payload [OF a] Stat_parses_payload [OF b]
    by (simp add: Fields_5_2048 Fields_abc_10 Atoi_5 Atoi_2048 Atoi_abc)
qed

text \<open>
  Claim C10. There are success payloads with fewer than two fields on which \<open>Stat\<close> and
  \<open>List\<close> panic with an index out of range instead of returning an error: \<open>Stat\<close> on every
  payload with no field and on every payload whose only field is an integer, \<open>List\<close> on
  every payload with fewer than two fields.
\<close>

theorem Stat_List_index_out_of_range:
  "(Cmd c ''STAT'' [] = (c1, Return (l, None))
      \<and> (Fields l = [] \<or> (\<exists>a n. Fields l = [a] \<and> Atoi a = Inr n))
      \<longrightarrow> Stat c = (c1, Panic))
   \<and> (Cmd c ''LIST %d'' [IntArg msg] = (c2, Return (l', None)) \<and> length (Fields l') < 2
      \<longrightarrow> List c msg = (c2, Panic))"
  by (auto simp: Stat_def List_def)

theorem Stat_List_index_out_of_range_witness:
  "Stat \<lparr>bin = [''+OK ''], conn = []\<rparr> = (\<lparr>bin = [], conn = [''STAT'' @ CRLF]\<rparr>, Panic)
   \<and> Stat \<lparr>bin = [''+OK 5''], conn = []\<rparr> = (\<lparr>bin = [], conn = [''STAT'' @ CRLF]\<rparr>, Panic)
   \<and> List \<lparr>bin = [''+OK 5''], conn = []\<rparr> 5 = (\<lparr>bin = [], conn = [''LIST 5'' @ CRLF]\<rparr>, Panic)"
proof -
  have a: "Cmd \<lparr>bin = [''+OK ''], conn = []\<rparr> ''STAT'' [] =
             (\<lparr>bin = [], conn = [''STAT'' @ CRLF]\<rparr>, Return ('''', None))"
    by (simp add: Cmd_Cons spec_remainder_def CRLF_def)
  have b: "Cmd \<lparr>bin = [''+OK 5''], conn = []\<rparr> ''STAT'' [] =
             (\<lparr>bin = [], conn = [''STAT'' @ CRLF]\<rparr>, Return (''5'', None))"
    by (simp add: Cmd_Cons spec_remainder_def CRLF_def)
  have d: "Itoa 5 = ''5''"
    by code_simp
  have e: "Cmd \<lparr>bin = [''+OK 5''], conn = []\<rparr> ''LIST %d'' [IntArg 5] =
             (\<lparr>bin = [], conn = [''LIST 5'' @ CRLF]\<rparr>, Return (''5'', None))"
    by (simp add: Cmd_Cons spec_remainder_def CRLF_def d)
  have f: "Fields '''' = []" "Fields ''5'' = [''5'']"
    by (simp_all add: Fields_def isSpace_def)
  show ?thesis
    using Stat_List_index_out_of_range [of "\<lparr>bin = [''+OK ''], conn = []\<rparr>"
        "\<lparr>bin = [], conn = [''STAT'' @ CRLF]\<rparr>" "''''" 5
        "\<lparr>bin = [], conn = [''LIST 5'' @ CRLF]\<rparr>" "''5''"]
      Stat_List_index_out_of_range [of "\<lparr>bin = [''+OK 5''], conn = []\<rparr>"
        "\<lparr>bin = [], conn = [''STAT'' @ CRLF]\<rparr>" "''5''" 5
        "\<lparr>bin = [], conn = [''LIST 5'' @ CRLF]\<rparr>" "''5''"]
    by (simp add: a b e f Atoi_5)
qed

text \<open>
  Claim C7. The claim asks for two empty sequences when a line of the LIST block is not
  numeric. \<open>ListAll\<close> returns from inside its loop with the slices it has allocated at the
  number of lines, filled up to the failing line and zero after it; \<open>Stat\<close> and \<open>List\<close> put
  their results back to zero on the same failure, and the earlier error returns of \<open>ListAll\<close>
  itself give empty slices.
\<close>

theorem ListAll_parse_failure_keeps_slices:
  "ListAll \<lparr>bin = [''+OK 2 messages'', ''1 100'', ''x 200'', ''.''], conn = []\<rparr> =
     (\<lparr>bin = [], conn = [''LIST'' @ CRLF]\<rparr>, Return ([1, 0], [100, 0], Some (NumError ''x'')))"
proof -
  have a: "Cmd \<lparr>bin = [''+OK 2 messages'', ''1 100'', ''x 200'', ''.''], conn = []\<rparr> ''LIST'' [] =
             (\<lparr>bin = [''1 100'', ''x 200'', ''.''], conn = [''LIST'' @ CRLF]\<rparr>,
              Return (''2 messages'', None))"
    by (simp add: Cmd_Cons spec_remainder_def CRLF_def)
  have b: "ReadLines \<lparr>bin = [''1 100'', ''x 200'', ''.''], conn = w\<rparr> =
             (\<lparr>bin = [], conn = w\<rparr>, ([''1 100'', ''x 200''], None))" for w
    using ReadLines_loop_block [of "[''1 100'', ''x 200'']"
        "\<lparr>bin = [''1 100'', ''x 200'', ''.''], conn = w\<rparr>" "[]" "[]"]
    by (simp add: ReadLines_def HasPrefix_def)
  have f: "Fields ''1 100'' = [''1'', ''100'']" "Fields ''x 200'' = [''x'', ''200'']"
    by (simp_all add: Fields_def isSpace_def)
  have g: "Atoi ''1'' = Inr 1" "Atoi ''100'' = Inr 100" "Atoi ''x'' = Inl (NumError ''x'')"
    by (simp_all add: Atoi_def isDigit_def digits_value_def)
  show ?thesis
    by (simp add: ListAll_def a b f g numeral_2_eq_2)
qed

section \<open>Authentication\<close>

lemma ReadLines_loop_conn: "conn (fst (ReadLines_loop c acc)) = conn c"
proof (induction c acc rule: ReadLines_loop.induct)
  case (1 c lines)
  show ?case
  proof (cases "bin c")
    case Nil
    then show ?thesis
      by (subst ReadLines_loop.simps) (simp add: ReadLine_def)
  next
    case (Cons l ls)
    then have step: "ReadLine c = (c\<lparr>bin := ls\<rparr>, Inr l)"
      by (simp add: ReadLine_def)
    show ?thesis
    proof (cases "l = ''.''")
      case True
      with step show ?thesis
        by (subst ReadLines_loop.simps) simp
    next
      case False
      with step "1.IH" [OF step [symmetric] refl False] show ?thesis
        by (subst ReadLines_loop.simps) simp
    qed
  qed
qed

lemma Caps_conn:
  assumes "Caps c = (c1, Return r)"
  shows "conn c1 = conn c @ [''CAPA'' @ CRLF]"
proof -
  obtain c0 r0 where cmd: "Cmd c ''CAPA'' [] = (c0, r0)"
    by (cases "Cmd c ''CAPA'' []")
  have c0: "conn c0 = conn c @ [''CAPA'' @ CRLF]"
    using Cmd_conn [of c "''CAPA''" "[]"] cmd by (simp add: Sprintf_plain CRLF_def)
  from assms cmd have "c1 = fst (ReadLines c0)"
    by (cases r0) (auto simp: Caps_def split: prod.splits)
  then show ?thesis
    using c0 by (simp add: ReadLines_def ReadLines_loop_conn)
qed

lemma Auth_sasl_iff: "Auth_sasl ms \<longleftrightarrow> ''CRAM-MD5'' \<in> set ms"
  by (induction ms) auto

lemma Auth_caps_eq:
  "Auth_caps caps sasl plain =
     ((case rev (filter (\<lambda>x. HasPrefix x ''SASL'') caps) of
         [] \<Rightarrow> sasl
       | x # _ \<Rightarrow> Some (drop 1 (Split x (CHR '' '')))),
      plain \<or> ''PLAIN'' \<in> set caps)"
proof (induction caps arbitrary: sasl plain)
  case Nil
  then show ?case by simp
next
  case (Cons x caps)
  have np: "\<not> HasPrefix ''PLAIN'' ''SASL''"
    by (simp add: HasPrefix_def)
  show ?case
    using np by (auto simp: Cons.IH split: list.splits)
qed

lemma Auth_selection:
  "(case fst (Auth_caps caps None False) of None \<Rightarrow> False | Some ms \<Rightarrow> Auth_sasl ms)
     \<longleftrightarrow> ''CRAM-MD5'' \<in> set (spec_mechanisms caps)"
  by (simp add: Auth_caps_eq spec_mechanisms_def Auth_sasl_iff drop_Suc split: list.splits)

lemma Auth_plain_flag: "snd (Auth_caps caps None False) \<longleftrightarrow> ''PLAIN'' \<in> set caps"
  by (simp add: Auth_caps_eq)

lemma Auth_eq:
  assumes "Caps c = (c1, Return (caps, err))"
  shows "Auth hmac_md5 c username password =
           (if ''CRAM-MD5'' \<in> set (spec_mechanisms caps) then Auth_cram hmac_md5 c1 username password
            else if ''PLAIN'' \<in> set caps then Auth_plain c1 username password
            else (c1, Return (Some (ErrorString ''No supported auth methods found.''))))"
proof -
  obtain sasl plain where ac: "Auth_caps caps None False = (sasl, plain)"
    by (cases "Auth_caps caps None False")
  have s: "(case sasl of None \<Rightarrow> False | Some ms \<Rightarrow> Auth_sasl ms)
             \<longleftrightarrow> ''CRAM-MD5'' \<in> set (spec_mechanisms caps)"
    using Auth_selection [of caps] ac by simp
  have p: "plain \<longleftrightarrow> ''PLAIN'' \<in> set caps"
    using Auth_plain_flag [of caps] ac by simp
  show ?thesis
    using assms ac s p by (simp add: Auth_def)
qed

lemma Auth_plain_conn:
  "conn (fst (Auth_plain c username password)) =
     conn c @ [''AUTH '' @ username @ '' '' @ EncodeToString password @ CRLF]"
proof -
  have "conn (fst (Auth_plain c username password)) =
          conn (fst (Cmd c ''AUTH %s %s'' [StringArg username, StringArg (EncodeToString password)]))"
    by (auto simp: Auth_plain_def split: prod.splits outcome.splits)
  then show ?thesis
    by (simp add: Cmd_conn CRLF_def)
qed

lemma Auth_cram_conn:
  "\<exists>more. conn (fst (Auth_cram hmac_md5 c username password)) =
            conn c @ (''AUTH CRAM-MD5'' @ CRLF) # more"
proof -
  obtain c1 r1 where cmd: "Cmd c ''AUTH CRAM-MD5'' [] = (c1, r1)"
    by (cases "Cmd c ''AUTH CRAM-MD5'' []")
  have c1: "conn c1 = conn c @ [''AUTH CRAM-MD5'' @ CRLF]"
    using Cmd_conn [of c "''AUTH CRAM-MD5''" "[]"] cmd by (simp add: Sprintf_plain CRLF_def)
  show ?thesis
  proof (cases r1)
    case Panic
    with cmd c1 show ?thesis by (simp add: Auth_cram_def)
  next
    case (Return p)
    obtain line e where p: "p = (line, e)" by (cases p)
    show ?thesis
    proof (cases e)
      case (Some err)
      with cmd c1 Return p show ?thesis by (simp add: Auth_cram_def)
    next
      case None
      show ?thesis
      proof (cases "DecodeString line")
        case (Inl err)
        with cmd c1 Return p None show ?thesis by (simp add: Auth_cram_def)
      next
        case (Inr chal)
        define response where "response = EncodeToString (username @ '' '' @ hmac_md5 password chal)"
        obtain c2 r2 where cmd2: "Cmd c1 response [] = (c2, r2)"
          by (cases "Cmd c1 response []")
        have c2: "\<exists>w. conn c2 = conn c1 @ [w]"
          using Cmd_conn [of c1 response "[]"] cmd2 by simp
        have "fst (Auth_cram hmac_md5 c username password) = c2"
          using cmd Return p None Inr cmd2
          by (cases r2) (auto simp: Auth_cram_def Let_def response_def)
        with c1 c2 show ?thesis by auto
      qed
    qed
  qed
qed

text \<open>
  Claim C5. For every capability list that \<open>Caps\<close> returns: when the mechanism list contains
  \<open>CRAM-MD5\<close>, \<open>Auth\<close> runs the CRAM-MD5 exchange, whose first command is \<open>AUTH CRAM-MD5\<close>;
  otherwise, when the list has an entry equal to \<open>PLAIN\<close>, \<open>Auth\<close> runs the plain exchange,
  which is one command; otherwise \<open>Auth\<close> sends nothing more and fails with the error that
  no supported method was found. The three capability sets of the claim are the three
  parts of the example that follows the theorem.
\<close>

theorem Auth_selects_mechanism:
  assumes "Caps c = (c1, Return (caps, err))"
  shows "if ''CRAM-MD5'' \<in> set (spec_mechanisms caps)
         then Auth hmac_md5 c username password = Auth_cram hmac_md5 c1 username password
            \<and> (\<exists>more. conn (fst (Auth hmac_md5 c username password)) =
                  conn c @ [''CAPA'' @ CRLF, ''AUTH CRAM-MD5'' @ CRLF] @ more)
         else if ''PLAIN'' \<in> set caps
         then Auth hmac_md5 c username password = Auth_plain c1 username password
            \<and> conn (fst (Auth hmac_md5 c username password)) =
                  conn c @ [''CAPA'' @ CRLF, ''AUTH '' @ username @ '' '' @ EncodeToString password @ CRLF]
         else Auth hmac_md5 c username password =
                (c1, Return (Some (ErrorString ''No supported auth methods found.'')))"
  using Auth_eq [OF assms, of hmac_md5 username password] Caps_conn [OF assms]
    Auth_plain_conn [of c1 username password] Auth_cram_conn [of hmac_md5 c1 username password]
  by auto

lemma spec_mechanisms_example:
  "spec_mechanisms [''SASL CRAM-MD5 PLAIN'', ''PLAIN''] = [''CRAM-MD5'', ''PLAIN'']"
  "spec_mechanisms [''PLAIN''] = []"
  "spec_mechanisms [] = []"
  by code_simp+

lemma Caps_example:
  "Caps \<lparr>bin = ''+OK'' # ''SASL CRAM-MD5 PLAIN'' # ''PLAIN'' # ''.'' # rest, conn = []\<rparr> =
     (\<lparr>bin = rest, conn = [''CAPA'' @ CRLF]\<rparr>, Return ([''SASL CRAM-MD5 PLAIN'', ''PLAIN''], None))"
  "Caps \<lparr>bin = ''+OK'' # ''PLAIN'' # ''.'' # rest, conn = []\<rparr> =
     (\<lparr>bin = rest, conn = [''CAPA'' @ CRLF]\<rparr>, Return ([''PLAIN''], None))"
  "Caps \<lparr>bin = ''+OK'' # ''.'' # rest, conn = []\<rparr> =
     (\<lparr>bin = rest, conn = [''CAPA'' @ CRLF]\<rparr>, Return ([], None))"
  using ReadLines_block [of "[''SASL CRAM-MD5 PLAIN'', ''PLAIN'']"
      "\<lparr>bin = ''SASL CRAM-MD5 PLAIN'' # ''PLAIN'' # ''.'' # rest, conn = [''CAPA'' @ CRLF]\<rparr>" rest]
    ReadLines_block [of "[''PLAIN'']"
      "\<lparr>bin = ''PLAIN'' # ''.'' # rest, conn = [''CAPA'' @ CRLF]\<rparr>" rest]
    ReadLines_block [of "[]" "\<lparr>bin = ''.'' # rest, conn = [''CAPA'' @ CRLF]\<rparr>" rest]
  by (simp_all add: Caps_def Cmd_Cons HasPrefix_def CRLF_def)

lemma Auth_cram_example:
  "Auth_cram example_digest \<lparr>bin = [''+ aGVsbG8='', ''+OK logged in''], conn = [''CAPA'' @ CRLF]\<rparr>
     ''alice'' ''pw'' =
   (\<lparr>bin = [],
     conn = [''CAPA'' @ CRLF, ''AUTH CRAM-MD5'' @ CRLF,
             EncodeToString (''alice '' @ example_digest ''pw'' ''hello'') @ CRLF]\<rparr>,
    Return None)"
  by code_simp

lemma Auth_plain_example:
  "Auth_plain \<lparr>bin = [''+OK logged in''], conn = [''CAPA'' @ CRLF]\<rparr> ''alice'' ''pw'' =
   (\<lparr>bin = [], conn = [''CAPA'' @ CRLF, ''AUTH alice cHc='' @ CRLF]\<rparr>, Return None)"
  by code_simp

theorem Auth_selects_mechanism_witness:
  "Auth example_digest
     \<lparr>bin = [''+OK'', ''SASL CRAM-MD5 PLAIN'', ''PLAIN'', ''.'', ''+ aGVsbG8='', ''+OK logged in''],
      conn = []\<rparr> ''alice'' ''pw'' =
   (\<lparr>bin = [],
     conn = [''CAPA'' @ CRLF, ''AUTH CRAM-MD5'' @ CRLF,
             EncodeToString (''alice '' @ example_digest ''pw'' ''hello'') @ CRLF]\<rparr>,
    Return None)
   \<and> Auth example_digest \<lparr>bin = [''+OK'', ''PLAIN'', ''.'', ''+OK logged in''], conn = []\<rparr>
       ''alice'' ''pw'' =
     (\<lparr>bin = [], conn = [''CAPA'' @ CRLF, ''AUTH alice cHc='' @ CRLF]\<rparr>, Return None)
   \<and> Auth example_digest \<lparr>bin = [''+OK'', ''.''], conn = []\<rparr> ''alice'' ''pw'' =
     (\<lparr>bin = [], conn = [''CAPA'' @ CRLF]\<rparr>,
      Return (Some (ErrorString ''No supported auth methods found.'')))"
proof -
  have cram: "Auth example_digest
     \<lparr>bin = [''+OK'', ''SASL CRAM-MD5 PLAIN'', ''PLAIN'', ''.'', ''+ aGVsbG8='', ''+OK logged in''],
      conn = []\<rparr> ''alice'' ''pw'' =
    Auth_cram example_digest
      \<lparr>bin = [''+ aGVsbG8='', ''+OK logged in''], conn = [''CAPA'' @ CRLF]\<rparr> ''alice'' ''pw''"
    using Auth_selects_mechanism [OF Caps_example(1), of example_digest
        "[''+ aGVsbG8='', ''+OK logged in'']" "''alice''" "''pw''"]
    by (simp add: spec_mechanisms_example)
  have plain: "Auth example_digest \<lparr>bin = [''+OK'', ''PLAIN'', ''.'', ''+OK logged in''], conn = []\<rparr>
       ''alice'' ''pw'' =
    Auth_plain \<lparr>bin = [''+OK logged in''], conn = [''CAPA'' @ CRLF]\<rparr> ''alice'' ''pw''"
    using Auth_selects_mechanism [OF Caps_example(2), of example_digest
        "[''+OK logged in'']" "''alice''" "''pw''"]
    by (simp add: spec_mechanisms_example)
  have none: "Auth example_digest \<lparr>bin = [''+OK'', ''.''], conn = []\<rparr> ''alice'' ''pw'' =
     (\<lparr>bin = [], conn = [''CAPA'' @ CRLF]\<rparr>,
      Return (Some (ErrorString ''No supported auth methods found.'')))"
    using Auth_selects_mechanism [OF Caps_example(3), of example_digest "[]" "''alice''" "''pw''"]
    by (simp add: spec_mechanisms_example)
  show ?thesis
    using trans [OF cram Auth_cram_example] trans [OF plain Auth_plain_example] none
    by blast
qed

text \<open>
  Claim C6, as stated, fails: on the plain path the command is built from the format
  \<open>AUTH %s %s\<close> with the user name as first operand, so the user name stands where the
  claim has the word \<open>PLAIN\<close>.
\<close>

theorem Auth_plain_sends_username:
  "conn (fst (Auth example_digest \<lparr>bin = [''+OK'', ''PLAIN'', ''.'', ''+OK logged in''], conn = []\<rparr>
            ''alice'' ''pw'')) =
     [''CAPA'' @ CRLF, ''AUTH alice '' @ EncodeToString ''pw'' @ CRLF]
   \<and> conn (fst (Auth example_digest \<lparr>bin = [''+OK'', ''PLAIN'', ''.'', ''+OK logged in''], conn = []\<rparr>
            ''alice'' ''pw'')) \<noteq>
     [''CAPA'' @ CRLF, ''AUTH PLAIN '' @ EncodeToString ''pw'' @ CRLF]"
proof -
  have "Auth example_digest \<lparr>bin = [''+OK'', ''PLAIN'', ''.'', ''+OK logged in''], conn = []\<rparr>
          ''alice'' ''pw'' =
        Auth_plain \<lparr>bin = [''+OK logged in''], conn = [''CAPA'' @ CRLF]\<rparr> ''alice'' ''pw''"
    using Auth_eq [OF Caps_example(2), of example_digest "[''+OK logged in'']" "''alice''" "''pw''"]
    by (simp add: spec_mechanisms_example)
  then show ?thesis
    by (simp add: Auth_plain_conn)
qed

text \<open>
  Claim C6, amended. For every user name and password, when the plain path is taken (no
  \<open>CRAM-MD5\<close> among the mechanisms, an entry \<open>PLAIN\<close> among the capabilities), \<open>Auth\<close> sends
  after \<open>CAPA\<close> exactly one command: the word \<open>AUTH\<close>, a space, the user name, a space, and
  the base64 encoding of the password alone, followed by CRLF.
\<close>

theorem Auth_plain_command:
  assumes "Caps c = (c1, Return (caps, err))"
    and "''CRAM-MD5'' \<notin> set (spec_mechanisms caps)"
    and "''PLAIN'' \<in> set caps"
  shows "conn (fst (Auth hmac_md5 c username password)) =
           conn c @ [''CAPA'' @ CRLF, ''AUTH '' @ username @ '' '' @ EncodeToString password @ CRLF]"
  using Auth_eq [OF assms(1), of hmac_md5 username password] assms(2,3) Caps_conn [OF assms(1)]
    Auth_plain_conn [of c1 username password]
  by simp

theorem Auth_plain_command_witness:
  "conn (fst (Auth example_digest
                \<lparr>bin = [''+OK'', ''SASL DIGEST-MD5'', ''PLAIN'', ''.'', ''-ERR unknown''], conn = []\<rparr>
                ''bob'' ''secret'')) =
     [''CAPA'' @ CRLF, ''AUTH bob c2VjcmV0'' @ CRLF]"
proof -
  have caps: "Caps \<lparr>bin = [''+OK'', ''SASL DIGEST-MD5'', ''PLAIN'', ''.'', ''-ERR unknown''], conn = []\<rparr> =
      (\<lparr>bin = [''-ERR unknown''], conn = [''CAPA'' @ CRLF]\<rparr>,
       Return ([''SASL DIGEST-MD5'', ''PLAIN''], None))"
    using ReadLines_block [of "[''SASL DIGEST-MD5'', ''PLAIN'']"
      "\<lparr>bin = [''SASL DIGEST-MD5'', ''PLAIN'', ''.'', ''-ERR unknown''], conn = [''CAPA'' @ CRLF]\<rparr>"
      "[''-ERR unknown'']"]
    by (simp add: Caps_def Cmd_Cons HasPrefix_def CRLF_def)
  have mech: "spec_mechanisms [''SASL DIGEST-MD5'', ''PLAIN''] = [''DIGEST-MD5'']"
    by code_simp
  have enc: "EncodeToString ''secret'' = ''c2VjcmV0''"
    by code_simp
  have sent: "conn (fst (Auth example_digest
                \<lparr>bin = [''+OK'', ''SASL DIGEST-MD5'', ''PLAIN'', ''.'', ''-ERR unknown''], conn = []\<rparr>
                ''bob'' ''secret'')) =
     [''CAPA'' @ CRLF, ''AUTH '' @ ''bob'' @ '' '' @ EncodeToString ''secret'' @ CRLF]"
    using Auth_plain_command [OF caps, of example_digest "''bob''" "''secret''"]
    by (simp add: mech)
  show ?thesis
    unfolding sent enc by simp
qed

end
